theory Spec2Isabelle
  imports Complex_Main "HOL-Library.AList"
begin

section \<open>JavaScript values\<close>

text \<open>
  The scoring pipeline of Helios-Tracker is written in TypeScript. Its \<open>number\<close>s are
  modelled as mathematical reals (counters that only ever count as naturals). The scores
  are computed in exact arithmetic; the running mean of the daily heart-rate index, whose
  bounds depend on it, is computed with each operation rounded to a double
  (\<open>round_double\<close> below). NaN and the infinities are outside the model, except where
  the code uses \<open>Infinity\<close> as a sentinel. Strings are \<open>string\<close>s,
  \<open>T | null\<close> is \<open>T option\<close>, and a \<open>Map\<close> is an association list in
  insertion order: \<open>get\<close> is \<^const>\<open>map_of\<close> and \<open>set\<close> is
  \<^const>\<open>AList.update\<close>, which overwrites a present key in place and appends a new one.
\<close>

text \<open>\<open>Math.round\<close>: the nearest integer, a tie going up.\<close>

definition Math_round :: "real \<Rightarrow> real" where
  "Math_round x = of_int \<lfloor>x + 1 / 2\<rfloor>"

text \<open>
  The arithmetic of doubles: the result of an operation is the exact result rounded to
  the nearest number with a 53-bit mantissa, a tie going to the even mantissa. \<open>rne\<close>
  rounds a scaled mantissa to an integer, and \<open>round_double\<close> scales by the exponent of
  its argument. The exponent is not bounded here, so overflow and subnormal numbers are
  outside the model; heart rates and their means are far from both.
\<close>

definition rne :: "real \<Rightarrow> int" where
  "rne x =
     (let f = \<lfloor>x\<rfloor>; r = x - of_int f in
      if r < 1 / 2 then f
      else if 1 / 2 < r then f + 1
      else if even f then f else f + 1)"

definition round_double :: "real \<Rightarrow> real" where
  "round_double x =
     (if x = 0 then 0
      else let e = \<lfloor>log 2 \<bar>x\<bar>\<rfloor> - 52
           in of_int (rne (x / 2 powr of_int e)) * 2 powr of_int e)"

text \<open>The relational operators on strings compare code units lexicographically.\<close>

fun str_less :: "string \<Rightarrow> string \<Rightarrow> bool" where
  "str_less [] [] = False"
| "str_less [] (y # ys) = True"
| "str_less (x # xs) [] = False"
| "str_less (x # xs) (y # ys) =
     (if (of_char x :: nat) < of_char y then True
      else if (of_char y :: nat) < of_char x then False
      else str_less xs ys)"

definition str_ge :: "string \<Rightarrow> string \<Rightarrow> bool" where
  "str_ge a b = (\<not> str_less a b)"

text \<open>
  \<open>Array.prototype.sort\<close> with a comparator is stable; \<open>le a b\<close> stands for
  ``the comparator does not put \<open>b\<close> before \<open>a\<close>''.
\<close>

fun insort_cmp :: "('a \<Rightarrow> 'a \<Rightarrow> bool) \<Rightarrow> 'a \<Rightarrow> 'a list \<Rightarrow> 'a list" where
  "insort_cmp le x [] = [x]"
| "insort_cmp le x (y # ys) = (if le x y then x # y # ys else y # insort_cmp le x ys)"

definition sort_cmp :: "('a \<Rightarrow> 'a \<Rightarrow> bool) \<Rightarrow> 'a list \<Rightarrow> 'a list" where
  "sort_cmp le xs = foldr (insort_cmp le) xs []"

text \<open>
  What the host supplies: \<open>String.prototype.localeCompare\<close> (locale dependent) and
  the local-time \<open>getHours\<close> and \<open>getMinutes\<close> of \<open>new Date(iso)\<close> (time-zone
  dependent). They are parameters of the model.
\<close>

record platform =
  localeCompare :: "string \<Rightarrow> string \<Rightarrow> int"
  getHours :: "string \<Rightarrow> real"
  getMinutes :: "string \<Rightarrow> real"

section \<open>Data types (data-types.ts)\<close>

record dated =
  date :: string

record HeartRateRecord = dated +
  time :: string
  heartRate :: real

record SleepNap =
  nap_start :: string
  nap_end :: string

record Sleep = dated +
  deepSleepTime :: real
  shallowSleepTime :: real
  wakeTime :: real
  start :: string
  stop :: string
  REMTime :: real
  naps :: "SleepNap list"

text \<open>
  \<open>DailyHRSummary.resting\<close> holds \<open>Infinity\<close> while a day has no reading between
  02:00 and 05:00, so it is a real or the sentinel. The fields \<open>min\<close> and \<open>max\<close> are
  \<open>min_hr\<close> and \<open>max_hr\<close> here.
\<close>

datatype jsnum = Fin real | Infinity

record DailyHRSummary = dated +
  min_hr :: real
  max_hr :: real
  avg :: real
  resting :: jsnum
  count :: nat

record ZoneMinutes =
  rest :: nat
  fatBurn :: nat
  cardio :: nat
  peak :: nat

datatype strain_level = Rest | Light | Moderate | High | AllOut

record ComputedDailyStrain = dated +
  rawTRIMP :: real
  strain :: real
  zoneMinutes :: ZoneMinutes
  level :: strain_level

datatype traffic_light = Green | Yellow | Red

record ComputedRecoveryScore = dated +
  score :: real
  rhrBpm :: real
  rhrBaseline :: real
  sleepComponent :: real
  strainComponent :: real
  recovery_level :: traffic_light

record ComputedEnhancedSleepScore = dated +
  sleep_score :: real
  sufficiency :: real
  efficiency :: real
  stageQuality :: real
  consistency :: real
  sleep_level :: traffic_light

record ComputedVO2Max =
  vo2max :: real
  classification :: string
  percentile :: real

record ComputedSleepNeed =
  recommendedMin :: real
  baseMin :: real
  strainAdjustMin :: real
  debtAdjustMin :: real

section \<open>Heart-rate zones (data-transforms.ts)\<close>

record HRZone =
  minutes :: nat
  percent :: real

record HRZones =
  zone_rest :: HRZone
  zone_fatBurn :: HRZone
  zone_cardio :: HRZone
  zone_peak :: HRZone

text \<open>One turn of the loop of \<open>computeHRZones\<close> over the four counters.\<close>

definition zone_step :: "real \<Rightarrow> HeartRateRecord \<Rightarrow> ZoneMinutes \<Rightarrow> ZoneMinutes" where
  "zone_step maxHR rec z =
     (let pct = heartRate rec / maxHR in
      if pct \<ge> 0.85 then z\<lparr>peak := peak z + 1\<rparr>
      else if pct \<ge> 0.7 then z\<lparr>cardio := cardio z + 1\<rparr>
      else if pct \<ge> 0.5 then z\<lparr>fatBurn := fatBurn z + 1\<rparr>
      else z\<lparr>rest := rest z + 1\<rparr>)"

definition computeHRZones :: "HeartRateRecord list \<Rightarrow> real \<Rightarrow> HRZones" where
  "computeHRZones records maxHR =
     (let z = fold (zone_step maxHR) records \<lparr>rest = 0, fatBurn = 0, cardio = 0, peak = 0\<rparr>;
          total = (if length records = 0 then 1 else real (length records))
      in \<lparr>zone_rest = \<lparr>minutes = rest z, percent = (real (rest z) / total) * 100\<rparr>,
          zone_fatBurn = \<lparr>minutes = fatBurn z, percent = (real (fatBurn z) / total) * 100\<rparr>,
          zone_cardio = \<lparr>minutes = cardio z, percent = (real (cardio z) / total) * 100\<rparr>,
          zone_peak = \<lparr>minutes = peak z, percent = (real (peak z) / total) * 100\<rparr>\<rparr>)"

section \<open>Daily strain (strain.ts)\<close>

definition getStrainLevel :: "real \<Rightarrow> strain_level" where
  "getStrainLevel s =
     (if s < 2 then Rest
      else if s < 7 then Light
      else if s < 14 then Moderate
      else if s < 18 then High
      else AllOut)"

definition computeDailyStrain :: "HeartRateRecord list \<Rightarrow> real \<Rightarrow> ComputedDailyStrain" where
  "computeDailyStrain records maxHR =
     (let zones = computeHRZones records maxHR;
          trimp = real (minutes (zone_fatBurn zones)) * 1
                + real (minutes (zone_cardio zones)) * 2
                + real (minutes (zone_peak zones)) * 3;
          s = Math_round (21 * (1 - exp (- trimp / 100)) * 10) / 10
      in \<lparr>date = (case records of [] \<Rightarrow> [] | r # _ \<Rightarrow> date r),
          rawTRIMP = trimp,
          strain = s,
          zoneMinutes = \<lparr>rest = minutes (zone_rest zones),
                          fatBurn = minutes (zone_fatBurn zones),
                          cardio = minutes (zone_cardio zones),
                          peak = minutes (zone_peak zones)\<rparr>,
          level = getStrainLevel s\<rparr>)"

section \<open>Sleep need (sleep-need.ts)\<close>

definition computeSleepNeed :: "real \<Rightarrow> real \<Rightarrow> ComputedSleepNeed" where
  "computeSleepNeed todayStrain sleepDebtMin =
     (let base = 480;
          strainAdjust =
            (if todayStrain < 7 then 0
             else if todayStrain < 14 then 15
             else if todayStrain < 18 then 30
             else 45);
          debtAdjust = min (max (sleepDebtMin * 0.25) 0) 30
      in \<lparr>recommendedMin = base + strainAdjust + debtAdjust,
          baseMin = base,
          strainAdjustMin = strainAdjust,
          debtAdjustMin = debtAdjust\<rparr>)"

section \<open>VO2 max (vo2max.ts)\<close>

definition estimateVO2Max :: "real \<Rightarrow> real \<Rightarrow> ComputedVO2Max" where
  "estimateVO2Max maxHR restingHR =
     (let raw = 15.3 * (maxHR / restingHR);
          v = Math_round (raw * 10) / 10
      in if v < 36 then \<lparr>vo2max = v, classification = ''Poor'', percentile = 15\<rparr>
         else if v < 42 then \<lparr>vo2max = v, classification = ''Fair'', percentile = 30\<rparr>
         else if v < 46 then \<lparr>vo2max = v, classification = ''Average'', percentile = 50\<rparr>
         else if v < 50 then \<lparr>vo2max = v, classification = ''Good'', percentile = 70\<rparr>
         else if v < 56 then \<lparr>vo2max = v, classification = ''Excellent'', percentile = 85\<rparr>
         else \<lparr>vo2max = v, classification = ''Superior'', percentile = 95\<rparr>)"

section \<open>Recovery (recovery.ts)\<close>

text \<open>The median of a sorted array; the indices are in range whenever it is not empty.\<close>

definition median :: "real list \<Rightarrow> real" where
  "median sortedVals =
     (let n = length sortedVals in
      if n = 0 then 0
      else let mid = n div 2 in
        if n mod 2 = 1 then sortedVals ! mid
        else (sortedVals ! (mid - 1) + sortedVals ! mid) / 2)"

text \<open>The test \<open>time >= '02:00' && time < '05:00'\<close>, on strings.\<close>

definition inNightWindow :: "string \<Rightarrow> bool" where
  "inNightWindow t = (str_ge t ''02:00'' \<and> str_less t ''05:00'')"

definition computeNightlyRestingHR :: "HeartRateRecord list \<Rightarrow> real option" where
  "computeNightlyRestingHR hrRecords =
     (let nightRecords = filter (\<lambda>r. inNightWindow (time r)) hrRecords in
      if length nightRecords = 0 then None
      else Some (median (sort (map heartRate nightRecords))))"

definition computeRHRBaseline :: "real list \<Rightarrow> real" where
  "computeRHRBaseline nightlyRHRs =
     (if length nightlyRHRs = 0 then 65 else median (sort nightlyRHRs))"

definition computeDailyRecovery ::
  "string \<Rightarrow> real option \<Rightarrow> real \<Rightarrow> Sleep option \<Rightarrow> ComputedDailyStrain option
   \<Rightarrow> ComputedRecoveryScore" where
  "computeDailyRecovery d rhr baseline sleepNight priorStrain =
     (let rhrScore =
            (case rhr of
               None \<Rightarrow> 50
             | Some bpm \<Rightarrow> (let deviation = bpm - baseline
                            in max 0 (min 100 (100 - deviation * 5))));
          sleepScore =
            (case sleepNight of
               None \<Rightarrow> 50
             | Some night \<Rightarrow>
                 (let actualMin = deepSleepTime night + shallowSleepTime night + REMTime night
                  in min 100 ((actualMin / 480) * 100)));
          strainScore =
            (case priorStrain of
               None \<Rightarrow> 75
             | Some prior \<Rightarrow> max 0 (100 - (strain prior / 21) * 100));
          raw = rhrScore * 0.4 + sleepScore * 0.4 + strainScore * 0.2;
          sc = max 0 (min 100 (Math_round raw))
      in \<lparr>date = d,
          score = sc,
          rhrBpm = (case rhr of None \<Rightarrow> 0 | Some bpm \<Rightarrow> bpm),
          rhrBaseline = baseline,
          sleepComponent = sleepScore,
          strainComponent = strainScore,
          recovery_level = (if sc \<ge> 67 then Green else if sc \<ge> 34 then Yellow else Red)\<rparr>)"

section \<open>Sleep score (sleep-score.ts)\<close>

definition bedtimeHour :: "platform \<Rightarrow> string \<Rightarrow> real" where
  "bedtimeHour pf isoString =
     (let h = getHours pf isoString + getMinutes pf isoString / 60
      in if h \<le> 12 then h + 24 else h)"

text \<open>The \<open>median\<close> of sleep-score.ts, which sorts a copy of its argument itself.\<close>

definition median_values :: "real list \<Rightarrow> real" where
  "median_values vs =
     (if length vs = 0 then 0
      else let sortedVals = sort vs; mid = length sortedVals div 2 in
        if length sortedVals mod 2 \<noteq> 0 then sortedVals ! mid
        else (sortedVals ! (mid - 1) + sortedVals ! mid) / 2)"

definition scoreSufficiency :: "Sleep \<Rightarrow> real" where
  "scoreSufficiency night =
     (let actualMin = deepSleepTime night + shallowSleepTime night + REMTime night
      in min ((actualMin / 480) * 100) 100)"

definition scoreEfficiency :: "Sleep \<Rightarrow> real" where
  "scoreEfficiency night =
     (let totalInBed = deepSleepTime night + shallowSleepTime night + REMTime night
                       + wakeTime night
      in if totalInBed \<le> 0 then 0
         else ((totalInBed - wakeTime night) / totalInBed) * 100)"

definition scoreStageQuality :: "Sleep \<Rightarrow> real" where
  "scoreStageQuality night =
     (let actualMin = deepSleepTime night + shallowSleepTime night + REMTime night
      in if actualMin \<le> 0 then 0
         else let deepPct = deepSleepTime night / actualMin;
                  remPct = REMTime night / actualMin;
                  lightPct = shallowSleepTime night / actualMin;
                  deepDeviation = \<bar>deepPct - 0.2\<bar> / 0.2;
                  remDeviation = \<bar>remPct - 0.25\<bar> / 0.25;
                  lightDeviation = \<bar>lightPct - 0.55\<bar> / 0.55
              in max 0 (100 - (deepDeviation + remDeviation + lightDeviation) * 33.33))"

definition scoreConsistency :: "platform \<Rightarrow> Sleep \<Rightarrow> Sleep list \<Rightarrow> real" where
  "scoreConsistency pf night prevNights =
     (if length prevNights < 3 then 75
      else let prevBedHours = map (\<lambda>n. bedtimeHour pf (start n)) prevNights;
               medianBedHour = median_values prevBedHours;
               currentBedHour = bedtimeHour pf (start night);
               bedtimeDeviation = \<bar>currentBedHour - medianBedHour\<bar>
           in max 0 (100 - bedtimeDeviation * 25))"

definition computeEnhancedSleepScore ::
  "platform \<Rightarrow> Sleep \<Rightarrow> Sleep list \<Rightarrow> ComputedEnhancedSleepScore" where
  "computeEnhancedSleepScore pf night prevNights =
     (let suff = scoreSufficiency night;
          eff = scoreEfficiency night;
          stage = scoreStageQuality night;
          cons = scoreConsistency pf night prevNights;
          sc = Math_round (suff * 0.3 + eff * 0.25 + stage * 0.25 + cons * 0.2)
      in \<lparr>date = date night,
          sleep_score = sc,
          sufficiency = suff,
          efficiency = eff,
          stageQuality = stage,
          consistency = cons,
          sleep_level = (if sc \<ge> 70 then Green else if sc \<ge> 40 then Yellow else Red)\<rparr>)"

section \<open>The daily heart-rate index (buildDailyHRSummary)\<close>

text \<open>\<open>Math.min(existing.resting, rec.heartRate)\<close>, where the first may be the sentinel.\<close>

fun min_resting :: "jsnum \<Rightarrow> real \<Rightarrow> jsnum" where
  "min_resting Infinity x = Fin x"
| "min_resting (Fin a) x = Fin (min a x)"

text \<open>
  One turn of the first loop: the summary of the record's date is updated in place, or
  a new one is appended to the map. The running mean
  \<open>(existing.avg * existing.count + rec.heartRate) / (existing.count + 1)\<close> rounds
  after the product, after the sum and after the quotient; the count is a whole number
  below 2^32 (the length of an array), so \<open>existing.count + 1\<close> is exact.
\<close>

definition summary_step ::
  "HeartRateRecord \<Rightarrow> (string \<times> DailyHRSummary) list \<Rightarrow> (string \<times> DailyHRSummary) list" where
  "summary_step rec m =
     (case map_of m (date rec) of
        Some existing \<Rightarrow>
          AList.update (date rec)
            (existing
               \<lparr>min_hr := min (min_hr existing) (heartRate rec),
                max_hr := max (max_hr existing) (heartRate rec),
                avg := round_double
                         (round_double
                            (round_double (avg existing * real (count existing))
                             + heartRate rec)
                          / (real (count existing) + 1)),
                count := count existing + 1,
                resting := (if inNightWindow (time rec)
                            then min_resting (resting existing) (heartRate rec)
                            else resting existing)\<rparr>) m
      | None \<Rightarrow>
          AList.update (date rec)
            \<lparr>date = date rec,
             min_hr = heartRate rec,
             max_hr = heartRate rec,
             avg = heartRate rec,
             resting = (if inNightWindow (time rec) then Fin (heartRate rec) else Infinity),
             count = 1\<rparr> m)"

text \<open>The second loop: a day without night readings falls back to its minimum.\<close>

definition resting_fallback :: "DailyHRSummary \<Rightarrow> DailyHRSummary" where
  "resting_fallback summary =
     (if resting summary = Infinity then summary\<lparr>resting := Fin (min_hr summary)\<rparr>
      else summary)"

definition buildDailyHRSummary :: "HeartRateRecord list \<Rightarrow> (string \<times> DailyHRSummary) list" where
  "buildDailyHRSummary records =
     map (\<lambda>(d, summary). (d, resting_fallback summary)) (fold summary_step records [])"

section \<open>The orchestrator (compute-scores.ts)\<close>

record ScoreInput =
  heartRateByDay :: "(string \<times> HeartRateRecord list) list"
  dailyHRSummary :: "(string \<times> DailyHRSummary) list"
  sleep :: "Sleep list"

record ComputedScores =
  computedStrain :: "(string \<times> ComputedDailyStrain) list"
  computedRecovery :: "(string \<times> ComputedRecoveryScore) list"
  computedSleepScore :: "(string \<times> ComputedEnhancedSleepScore) list"
  computedVO2Max :: "ComputedVO2Max option"

definition MAX_HR :: real where
  "MAX_HR = 190"

text \<open>\<open>xs.slice(a, b)\<close> for \<open>0 \<le> a \<le> b \<le> length xs\<close>.\<close>

definition slice :: "'a list \<Rightarrow> nat \<Rightarrow> nat \<Rightarrow> 'a list" where
  "slice xs a b = take (b - a) (drop a xs)"

text \<open>\<open>Math.max(0, i - 14)\<close> on an array index.\<close>

definition window_start :: "nat \<Rightarrow> nat" where
  "window_start i = nat (max 0 (int i - 14))"

text \<open>Step 1: the strain of every day of the heart-rate index.\<close>

definition strainByDay ::
  "(string \<times> HeartRateRecord list) list \<Rightarrow> (string \<times> ComputedDailyStrain) list" where
  "strainByDay hrByDay =
     fold (\<lambda>(d, dayRecords) m. AList.update d (computeDailyStrain dayRecords MAX_HR) m)
       hrByDay []"

text \<open>Step 2: the sleep score of every night, each with the up to 14 nights before it.\<close>

definition sleepScoreByDay ::
  "platform \<Rightarrow> Sleep list \<Rightarrow> (string \<times> ComputedEnhancedSleepScore) list" where
  "sleepScoreByDay pf nights =
     (let sortedSleep =
            sort_cmp (\<lambda>a b. localeCompare pf (date a) (date b) \<le> 0) nights
      in fold (\<lambda>i m.
                 let night = sortedSleep ! i;
                     prevNights = slice sortedSleep (window_start i) i
                 in AList.update (date night) (computeEnhancedSleepScore pf night prevNights) m)
           [0 ..< length sortedSleep] [])"

text \<open>Step 3: the sorted dates and the nightly resting heart rate of those that have one.\<close>

definition sortedDates :: "(string \<times> HeartRateRecord list) list \<Rightarrow> string list" where
  "sortedDates hrByDay = sort_cmp (\<lambda>a b. \<not> str_less b a) (map fst hrByDay)"

definition nightlyRHRByDay ::
  "(string \<times> HeartRateRecord list) list \<Rightarrow> string list \<Rightarrow> (string \<times> real) list" where
  "nightlyRHRByDay hrByDay allDates =
     fold (\<lambda>d m.
             case map_of hrByDay d of
               None \<Rightarrow> m
             | Some dayRecords \<Rightarrow>
                 (case computeNightlyRestingHR dayRecords of
                    None \<Rightarrow> m
                  | Some rhr \<Rightarrow> AList.update d rhr m))
       allDates []"

text \<open>
  Step 4: the recovery of every date, from a baseline over the 14 dates before it and the
  strain of the date before it. An empty date string is falsy, so it yields no prior strain.
\<close>

definition recoveryByDay ::
  "string list \<Rightarrow> (string \<times> real) list \<Rightarrow> Sleep list \<Rightarrow> (string \<times> ComputedDailyStrain) list
   \<Rightarrow> (string \<times> ComputedRecoveryScore) list" where
  "recoveryByDay allDates nightlyRHRMap nights strainMap =
     (let sleepByDate = fold (\<lambda>s m. AList.update (date s) s m) nights []
      in fold (\<lambda>i m.
                 let d = allDates ! i;
                     rhr = map_of nightlyRHRMap d;
                     baselineRHRs =
                       List.map_filter (\<lambda>j. map_of nightlyRHRMap (allDates ! j))
                         [window_start i ..< i];
                     baseline = computeRHRBaseline baselineRHRs;
                     sleepNight = map_of sleepByDate d;
                     priorDate = (if i > 0 then Some (allDates ! (i - 1)) else None);
                     priorStrain =
                       (case priorDate of
                          None \<Rightarrow> None
                        | Some pd \<Rightarrow> if pd = [] then None else map_of strainMap pd)
                 in AList.update d (computeDailyRecovery d rhr baseline sleepNight priorStrain) m)
           [0 ..< length allDates] [])"

text \<open>Step 5: one VO2 max estimate from the daily summaries, or \<open>null\<close>.\<close>

definition finiteResting :: "DailyHRSummary \<Rightarrow> real option" where
  "finiteResting summary = (case resting summary of Fin r \<Rightarrow> Some r | Infinity \<Rightarrow> None)"

definition vo2MaxOfSummaries :: "(string \<times> DailyHRSummary) list \<Rightarrow> ComputedVO2Max option" where
  "vo2MaxOfSummaries summaries =
     (if length summaries > 0 then
        (let overallMaxHR = fold (\<lambda>summary m. max m (max_hr summary)) (map snd summaries) 0;
             restingHRs = List.map_filter finiteResting (map snd summaries)
         in if length restingHRs > 0 \<and> overallMaxHR > 0 then
              (let sortedRHRs = sort restingHRs;
                   n = length sortedRHRs;
                   medianRHR =
                     (if n mod 2 = 1 then sortedRHRs ! (n div 2)
                      else (sortedRHRs ! (n div 2 - 1) + sortedRHRs ! (n div 2)) / 2)
               in Some (estimateVO2Max overallMaxHR medianRHR))
            else None)
      else None)"

definition computeAllScores :: "platform \<Rightarrow> ScoreInput \<Rightarrow> ComputedScores" where
  "computeAllScores pf input =
     (let strainMap = strainByDay (heartRateByDay input);
          sleepScoreMap = sleepScoreByDay pf (sleep input);
          allDates = sortedDates (heartRateByDay input);
          nightlyRHRMap = nightlyRHRByDay (heartRateByDay input) allDates;
          recoveryMap = recoveryByDay allDates nightlyRHRMap (sleep input) strainMap
      in \<lparr>computedStrain = strainMap,
          computedRecovery = recoveryMap,
          computedSleepScore = sleepScoreMap,
          computedVO2Max = vo2MaxOfSummaries (dailyHRSummary input)\<rparr>)"

section \<open>The loop invariant of the daily heart-rate index\<close>

text \<open>
  What the first loop of \<open>buildDailyHRSummary\<close> maintains for the summary of one date,
  \<open>day\<close> being the records of that date read so far, in order: the extremes, the
  count, and the lowest night reading or the sentinel.
\<close>

definition summarises :: "HeartRateRecord list \<Rightarrow> DailyHRSummary \<Rightarrow> bool" where
  "summarises day s =
     (day \<noteq> []
      \<and> min_hr s = Min (heartRate ` set day)
      \<and> max_hr s = Max (heartRate ` set day)
      \<and> count s = length day
      \<and> resting s =
          (if filter (\<lambda>r. inNightWindow (time r)) day = [] then Infinity
           else Fin (Min (heartRate ` set (filter (\<lambda>r. inNightWindow (time r)) day)))))"

section \<open>Properties of the strain engine\<close>

lemma zone_step_sum:
  "rest (zone_step m r z) + fatBurn (zone_step m r z) + cardio (zone_step m r z)
     + peak (zone_step m r z)
   = Suc (rest z + fatBurn z + cardio z + peak z)"
  by (simp add: zone_step_def Let_def)

lemma zone_fold_sum:
  "rest (fold (zone_step m) rs z) + fatBurn (fold (zone_step m) rs z)
     + cardio (fold (zone_step m) rs z) + peak (fold (zone_step m) rs z)
   = length rs + (rest z + fatBurn z + cardio z + peak z)"
  by (induction rs arbitrary: z) (simp_all add: zone_step_sum)

lemma zone_fold_all_peak:
  "(\<And>r. r \<in> set rs \<Longrightarrow> 0.85 \<le> heartRate r / m) \<Longrightarrow>
   fold (zone_step m) rs z = z\<lparr>peak := peak z + length rs\<rparr>"
proof (induction rs arbitrary: z)
  case Nil
  then show ?case by simp
next
  case (Cons r rs)
  have "zone_step m r z = z\<lparr>peak := peak z + 1\<rparr>"
    using Cons.prems [of r] by (simp add: zone_step_def Let_def)
  then show ?case using Cons.IH [of "z\<lparr>peak := peak z + 1\<rparr>"] Cons.prems by simp
qed

lemma Math_round_bounds:
  assumes "0 \<le> x" "x \<le> of_int n"
  shows "0 \<le> Math_round x \<and> Math_round x \<le> of_int n"
proof -
  have "0 \<le> \<lfloor>x + 1 / 2\<rfloor>" using assms(1) by simp
  moreover have "\<lfloor>x + 1 / 2\<rfloor> \<le> n"
  proof -
    have "x + 1 / 2 < of_int (n + 1)" using assms(2) by simp
    then have "\<lfloor>x + 1 / 2\<rfloor> < n + 1" by (simp only: floor_less_iff)
    then show ?thesis by simp
  qed
  ultimately show ?thesis by (simp add: Math_round_def)
qed

lemma saturation_bounds:
  fixes t :: real
  assumes "0 \<le> t"
  shows "0 \<le> 21 * (1 - exp (- t / 100)) * 10 \<and> 21 * (1 - exp (- t / 100)) * 10 \<le> 210"
proof -
  have "exp (- t / 100) \<le> 1" using assms by simp
  moreover have "0 < exp (- t / 100)" by simp
  ultimately show ?thesis by simp
qed

lemma rawTRIMP_nonneg: "0 \<le> rawTRIMP (computeDailyStrain records maxHR)"
  by (simp add: computeDailyStrain_def Let_def)

lemma strain_of_rawTRIMP:
  "strain (computeDailyStrain records maxHR)
   = Math_round (21 * (1 - exp (- rawTRIMP (computeDailyStrain records maxHR) / 100)) * 10) / 10"
  unfolding computeDailyStrain_def Let_def by simp

lemma exp_9_lower: "(420 :: real) \<le> exp 9"
proof -
  have "(2 :: real) \<le> exp 1" using exp_ge_add_one_self [of "1 :: real"] by simp
  then have "(2 :: real) ^ 9 \<le> exp 1 ^ 9" by (rule power_mono) simp
  also have "exp (1 :: real) ^ 9 = exp 9" using exp_of_nat_mult [of 9 "1 :: real"] by simp
  finally show ?thesis by simp
qed

lemma Math_round_saturated:
  fixes x :: real
  assumes "0 < x" "x \<le> 1 / 420"
  shows "Math_round (21 * (1 - x) * 10) = 210"
proof -
  have eq: "21 * (1 - x) * 10 + 1 / 2 = 421 / 2 - 210 * x" by (simp add: algebra_simps)
  have "\<lfloor>421 / 2 - 210 * x\<rfloor> = 210"
  proof (rule floor_unique)
    show "of_int 210 \<le> 421 / 2 - 210 * x" using assms(2) by simp
    show "421 / 2 - 210 * x < of_int 210 + 1" using assms(1) by simp
  qed
  then show ?thesis unfolding Math_round_def eq by simp
qed

text \<open>
  Claim C1, as the code has it. For every list of heart-rate records and every positive
  maximum heart rate, the strain returned by \<open>computeDailyStrain\<close> lies in the closed
  interval from 0 to 21: it is never negative and never exceeds 21. The value is rounded
  to one decimal, so the bound 21 itself is reached once the raw impulse is large.
\<close>

theorem computeDailyStrain_strain_range:
  assumes "0 < maxHR"
  shows "0 \<le> strain (computeDailyStrain records maxHR)
       \<and> strain (computeDailyStrain records maxHR) \<le> 21"
proof -
  let ?t = "rawTRIMP (computeDailyStrain records maxHR)"
  from Math_round_bounds [of "21 * (1 - exp (- ?t / 100)) * 10" 210]
    saturation_bounds [OF rawTRIMP_nonneg, of records maxHR]
  have "0 \<le> Math_round (21 * (1 - exp (- ?t / 100)) * 10)
      \<and> Math_round (21 * (1 - exp (- ?t / 100)) * 10) \<le> 210"
    by simp
  then show ?thesis unfolding strain_of_rawTRIMP by simp
qed

theorem computeDailyStrain_strain_range_witness:
  "(0 :: real) < 190
   \<and> 0 \<le> strain (computeDailyStrain
        [\<lparr>date = ''2025-01-01'', time = ''12:00'', heartRate = 100\<rparr>] 190)
   \<and> strain (computeDailyStrain
        [\<lparr>date = ''2025-01-01'', time = ''12:00'', heartRate = 100\<rparr>] 190) \<le> 21"
  using computeDailyStrain_strain_range
    [of 190 "[\<lparr>date = ''2025-01-01'', time = ''12:00'', heartRate = 100\<rparr>]"]
  by simp

text \<open>
  Counterexample to claim C1 as stated (strain never reaches 21): 300 one-minute samples at 170 bpm
  with a maximum heart rate of 190 are all in the peak zone, the raw impulse is 900, and
  \<open>21 * (1 - exp (-9)) * 10\<close> rounds to 210, so the strain is exactly 21.
\<close>

theorem computeDailyStrain_reaches_21:
  "strain (computeDailyStrain
      (replicate 300 \<lparr>date = ''2025-01-01'', time = ''12:00'', heartRate = 170\<rparr>) 190) = 21"
proof -
  let ?rs = "replicate 300 \<lparr>date = ''2025-01-01'', time = ''12:00'', heartRate = 170\<rparr>"
  have z: "fold (zone_step 190) ?rs \<lparr>rest = 0, fatBurn = 0, cardio = 0, peak = 0\<rparr>
           = \<lparr>rest = 0, fatBurn = 0, cardio = 0, peak = 300\<rparr>"
    by (subst zone_fold_all_peak) simp_all
  have t: "rawTRIMP (computeDailyStrain ?rs 190) = 900"
    unfolding computeDailyStrain_def computeHRZones_def Let_def z by simp
  have "exp (- 9 :: real) = inverse (exp 9)" by (simp add: exp_minus)
  also have "\<dots> \<le> inverse 420" using exp_9_lower by (simp only: le_imp_inverse_le)
  finally have e: "exp (- 9 :: real) \<le> 1 / 420" by (simp add: inverse_eq_divide)
  have "Math_round (21 * (1 - exp (- 9 :: real)) * 10) = 210"
    using e by (intro Math_round_saturated) simp_all
  then show ?thesis unfolding strain_of_rawTRIMP t by simp
qed

text \<open>
  Claim C2. For every list of heart-rate records and every positive maximum heart rate,
  the four zone-minute counts of \<open>computeHRZones\<close>, which \<open>computeDailyStrain\<close>
  reports as \<open>zoneMinutes\<close>, add up to the number of records.
\<close>

theorem zone_minutes_sum_to_record_count:
  assumes "0 < maxHR"
  shows "minutes (zone_rest (computeHRZones records maxHR))
       + minutes (zone_fatBurn (computeHRZones records maxHR))
       + minutes (zone_cardio (computeHRZones records maxHR))
       + minutes (zone_peak (computeHRZones records maxHR)) = length records
     \<and> rest (zoneMinutes (computeDailyStrain records maxHR))
       + fatBurn (zoneMinutes (computeDailyStrain records maxHR))
       + cardio (zoneMinutes (computeDailyStrain records maxHR))
       + peak (zoneMinutes (computeDailyStrain records maxHR)) = length records"
  using zone_fold_sum [of maxHR records "\<lparr>rest = 0, fatBurn = 0, cardio = 0, peak = 0\<rparr>"]
  by (simp add: computeDailyStrain_def computeHRZones_def Let_def)

theorem zone_minutes_sum_to_record_count_witness:
  "(0 :: real) < 190
   \<and> rest (zoneMinutes (computeDailyStrain
        [\<lparr>date = ''2025-01-01'', time = ''12:00'', heartRate = 100\<rparr>,
         \<lparr>date = ''2025-01-01'', time = ''12:01'', heartRate = 165\<rparr>] 190))
     + fatBurn (zoneMinutes (computeDailyStrain
        [\<lparr>date = ''2025-01-01'', time = ''12:00'', heartRate = 100\<rparr>,
         \<lparr>date = ''2025-01-01'', time = ''12:01'', heartRate = 165\<rparr>] 190))
     + cardio (zoneMinutes (computeDailyStrain
        [\<lparr>date = ''2025-01-01'', time = ''12:00'', heartRate = 100\<rparr>,
         \<lparr>date = ''2025-01-01'', time = ''12:01'', heartRate = 165\<rparr>] 190))
     + peak (zoneMinutes (computeDailyStrain
        [\<lparr>date = ''2025-01-01'', time = ''12:00'', heartRate = 100\<rparr>,
         \<lparr>date = ''2025-01-01'', time = ''12:01'', heartRate = 165\<rparr>] 190)) = 2"
  using zone_minutes_sum_to_record_count
    [of 190 "[\<lparr>date = ''2025-01-01'', time = ''12:00'', heartRate = 100\<rparr>,
              \<lparr>date = ''2025-01-01'', time = ''12:01'', heartRate = 165\<rparr>]"]
  by simp

section \<open>Properties of the VO2 max estimate and of the sleep need\<close>

text \<open>
  Claim C5. \<open>estimateVO2Max\<close> at a maximum heart rate of 190 and a resting heart rate
  of 50 returns the value 58.1 (15.3 * 190 / 50 = 58.14, rounded to one decimal) with
  the classification Superior.
\<close>

theorem estimateVO2Max_190_50:
  "vo2max (estimateVO2Max 190 50) = 58.1
   \<and> classification (estimateVO2Max 190 50) = ''Superior''"
  by (simp add: estimateVO2Max_def Let_def Math_round_def)

text \<open>
  Claim C10. For every strain value and every sleep debt, negative debt included,
  \<open>computeSleepNeed\<close> recommends between 480 and 555 minutes: the strain adjustment is
  one of 0, 15, 30 and 45, and the debt adjustment lies between 0 and 30.
\<close>

theorem computeSleepNeed_range:
  "480 \<le> recommendedMin (computeSleepNeed todayStrain sleepDebtMin)
   \<and> recommendedMin (computeSleepNeed todayStrain sleepDebtMin) \<le> 555
   \<and> strainAdjustMin (computeSleepNeed todayStrain sleepDebtMin) \<in> {0, 15, 30, 45}
   \<and> 0 \<le> debtAdjustMin (computeSleepNeed todayStrain sleepDebtMin)
   \<and> debtAdjustMin (computeSleepNeed todayStrain sleepDebtMin) \<le> 30"
  by (auto simp add: computeSleepNeed_def Let_def min_def max_def)

section \<open>Properties of the recovery and sleep scores\<close>

text \<open>
  Claim C3. For every date and every baseline, \<open>computeDailyRecovery\<close> with a nightly
  resting heart rate equal to the baseline, a night whose deep, light and REM minutes
  total exactly 480, and no prior-day strain returns the score 95.
\<close>

theorem computeDailyRecovery_neutral_95:
  assumes "deepSleepTime night + shallowSleepTime night + REMTime night = 480"
  shows "score (computeDailyRecovery d (Some baseline) baseline (Some night) None) = 95"
  using assms by (simp add: computeDailyRecovery_def Let_def Math_round_def)

theorem computeDailyRecovery_neutral_95_witness:
  "deepSleepTime \<lparr>date = ''2025-01-02'', deepSleepTime = 96, shallowSleepTime = 264,
       wakeTime = 20, start = ''2025-01-01T23:30:00'', stop = ''2025-01-02T07:50:00'',
       REMTime = 120, naps = []\<rparr>
   + shallowSleepTime \<lparr>date = ''2025-01-02'', deepSleepTime = 96, shallowSleepTime = 264,
       wakeTime = 20, start = ''2025-01-01T23:30:00'', stop = ''2025-01-02T07:50:00'',
       REMTime = 120, naps = []\<rparr>
   + REMTime \<lparr>date = ''2025-01-02'', deepSleepTime = 96, shallowSleepTime = 264,
       wakeTime = 20, start = ''2025-01-01T23:30:00'', stop = ''2025-01-02T07:50:00'',
       REMTime = 120, naps = []\<rparr> = (480 :: real)
   \<and> score (computeDailyRecovery ''2025-01-02'' (Some 58) 58
       (Some \<lparr>date = ''2025-01-02'', deepSleepTime = 96, shallowSleepTime = 264,
          wakeTime = 20, start = ''2025-01-01T23:30:00'', stop = ''2025-01-02T07:50:00'',
          REMTime = 120, naps = []\<rparr>) None) = 95"
  using computeDailyRecovery_neutral_95
    [of "\<lparr>date = ''2025-01-02'', deepSleepTime = 96, shallowSleepTime = 264,
          wakeTime = 20, start = ''2025-01-01T23:30:00'', stop = ''2025-01-02T07:50:00'',
          REMTime = 120, naps = []\<rparr>" "''2025-01-02''" 58]
  by simp

text \<open>
  Claim C4. For a night with 96 deep, 264 light, 120 REM and 0 wake minutes and no
  previous nights, \<open>computeEnhancedSleepScore\<close> returns the consistency 75 (the fallback
  for fewer than three previous nights) and the sufficiency 100, whatever the date, the
  bedtime, the naps and the host's clock are.
\<close>

theorem computeEnhancedSleepScore_example:
  "consistency (computeEnhancedSleepScore pf
      \<lparr>date = d, deepSleepTime = 96, shallowSleepTime = 264, wakeTime = 0,
       start = st, stop = sp, REMTime = 120, naps = ns\<rparr> []) = 75
   \<and> sufficiency (computeEnhancedSleepScore pf
      \<lparr>date = d, deepSleepTime = 96, shallowSleepTime = 264, wakeTime = 0,
       start = st, stop = sp, REMTime = 120, naps = ns\<rparr> []) = 100"
  by (simp add: computeEnhancedSleepScore_def scoreConsistency_def scoreSufficiency_def Let_def)

section \<open>Properties of the orchestrator\<close>

text \<open>
  Claim C6. When the daily heart-rate summary index is empty, \<open>computeAllScores\<close>
  returns \<open>null\<close> as its VO2 max, whatever the other inputs are. The model of the
  orchestrator has no error result because no step of the code can raise.
\<close>

theorem computeAllScores_no_summary_no_vo2max:
  "computedVO2Max
     (computeAllScores pf \<lparr>heartRateByDay = hrByDay, dailyHRSummary = [], sleep = nights\<rparr>)
   = None"
  by (simp add: computeAllScores_def vo2MaxOfSummaries_def Let_def)

section \<open>Properties of the rounding to doubles\<close>

lemma rne_of_int: "rne (of_int k) = k"
  by (simp add: rne_def)

lemma rne_floor_le: "\<lfloor>x\<rfloor> \<le> rne x"
  by (simp add: rne_def Let_def)

lemma rne_le_floor: "rne x \<le> \<lfloor>x\<rfloor> + 1"
  by (simp add: rne_def Let_def)

lemma rne_mono:
  assumes "x \<le> y"
  shows "rne x \<le> rne y"
proof (cases "\<lfloor>x\<rfloor> = \<lfloor>y\<rfloor>")
  case False
  with assms have "\<lfloor>x\<rfloor> < \<lfloor>y\<rfloor>" using floor_mono [of x y] by simp
  then have "rne x \<le> \<lfloor>y\<rfloor>" using rne_le_floor [of x] by simp
  then show ?thesis using rne_floor_le [of y] by simp
next
  case True
  with assms have "x - of_int \<lfloor>x\<rfloor> \<le> y - of_int \<lfloor>y\<rfloor>" by simp
  with True show ?thesis by (auto simp add: rne_def Let_def)
qed

lemma rne_ge: "of_int a \<le> x \<Longrightarrow> (of_int a :: real) \<le> of_int (rne x)"
  using rne_mono [of "of_int a" x] by (simp add: rne_of_int)

lemma rne_le: "x \<le> of_int b \<Longrightarrow> (of_int (rne x) :: real) \<le> of_int b"
  using rne_mono [of x "of_int b"] by (simp add: rne_of_int)


lemma binade_lower:
  fixes a :: real
  assumes "0 < a"
  shows "2 powr of_int \<lfloor>log 2 a\<rfloor> \<le> a"
proof -
  have "2 powr of_int \<lfloor>log 2 a\<rfloor> \<le> 2 powr log 2 a"
    by (intro powr_mono) simp_all
  with assms show ?thesis by simp
qed

lemma binade_upper:
  fixes a :: real
  assumes "0 < a"
  shows "a < 2 powr of_int (\<lfloor>log 2 a\<rfloor> + 1)"
proof -
  have "log 2 a < of_int (\<lfloor>log 2 a\<rfloor> + 1)" by linarith
  then have "2 powr log 2 a < 2 powr of_int (\<lfloor>log 2 a\<rfloor> + 1)"
    by (intro powr_less_mono) simp_all
  with assms show ?thesis by simp
qed

lemma binade_unique:
  fixes a :: real
  assumes "2 powr of_int k \<le> a" "a < 2 powr of_int (k + 1)"
  shows "\<lfloor>log 2 a\<rfloor> = k"
proof (rule floor_unique)
  have pos: "0 < a" using assms(1) powr_gt_zero [of 2 "of_int k"] by linarith
  show "of_int k \<le> log 2 a" using assms(1) pos by (simp add: le_log_iff)
  show "log 2 a < of_int k + 1" using assms(2) pos by (simp add: log_less_iff)
qed

lemma rne_scaled_ge:
  fixes c x :: real
  assumes "0 < c" "c * of_int a \<le> x"
  shows "c * of_int a \<le> of_int (rne (x / c)) * c"
proof -
  have "of_int a \<le> x / c" using assms by (simp add: pos_le_divide_eq mult.commute)
  then have "(of_int a :: real) \<le> of_int (rne (x / c))" by (rule rne_ge)
  then have "of_int a * c \<le> of_int (rne (x / c)) * c"
    using assms(1) by (intro mult_right_mono) simp_all
  then show ?thesis by (simp add: mult.commute)
qed

lemma rne_scaled_le:
  fixes c x :: real
  assumes "0 < c" "x \<le> c * of_int b"
  shows "of_int (rne (x / c)) * c \<le> c * of_int b"
proof -
  have "x / c \<le> of_int b" using assms by (simp add: pos_divide_le_eq mult.commute)
  then have "(of_int (rne (x / c)) :: real) \<le> of_int b" by (rule rne_le)
  then have "of_int (rne (x / c)) * c \<le> of_int b * c"
    using assms(1) by (intro mult_right_mono) simp_all
  then show ?thesis by (simp add: mult.commute)
qed

lemma two_powr_52: "(2 :: real) powr of_int (k - 52) * of_int (2 ^ 52) = 2 powr of_int k"
  by (simp add: powr_diff)

lemma two_powr_53: "(2 :: real) powr of_int (k - 52) * of_int (2 ^ 53) = 2 powr of_int (k + 1)"
  by (simp add: powr_diff powr_add)

text \<open>A number, scaled by its own exponent, has a mantissa from 2^52 to 2^53.\<close>

lemma round_double_pos:
  fixes x :: real
  assumes "0 < x"
  shows "2 powr of_int \<lfloor>log 2 x\<rfloor> \<le> round_double x"
    and "round_double x \<le> 2 powr of_int (\<lfloor>log 2 x\<rfloor> + 1)"
proof -
  define E where "E = \<lfloor>log 2 x\<rfloor>"
  define c :: real where "c = 2 powr of_int (E - 52)"
  have c: "0 < c" by (simp add: c_def)
  have rd: "round_double x = of_int (rne (x / c)) * c"
    using assms by (simp add: round_double_def Let_def c_def E_def)
  have c52: "c * of_int (2 ^ 52) = 2 powr of_int E" unfolding c_def by (rule two_powr_52)
  have c53: "c * of_int (2 ^ 53) = 2 powr of_int (E + 1)" unfolding c_def by (rule two_powr_53)
  have "c * of_int (2 ^ 52) \<le> x"
    unfolding c52 E_def by (rule binade_lower [OF assms])
  from rne_scaled_ge [OF c this] show "2 powr of_int \<lfloor>log 2 x\<rfloor> \<le> round_double x"
    unfolding rd c52 E_def .
  have "x \<le> c * of_int (2 ^ 53)"
    unfolding c53 E_def using binade_upper [OF assms] by simp
  from rne_scaled_le [OF c this] show "round_double x \<le> 2 powr of_int (\<lfloor>log 2 x\<rfloor> + 1)"
    unfolding rd c53 E_def .
qed

lemma round_double_neg:
  fixes x :: real
  assumes "x < 0"
  shows "round_double x \<le> - (2 powr of_int \<lfloor>log 2 \<bar>x\<bar>\<rfloor>)"
    and "- (2 powr of_int (\<lfloor>log 2 \<bar>x\<bar>\<rfloor> + 1)) \<le> round_double x"
proof -
  define E where "E = \<lfloor>log 2 \<bar>x\<bar>\<rfloor>"
  define c :: real where "c = 2 powr of_int (E - 52)"
  have c: "0 < c" by (simp add: c_def)
  have ax: "0 < \<bar>x\<bar>" using assms by simp
  have rd: "round_double x = of_int (rne (x / c)) * c"
    using assms by (simp add: round_double_def Let_def c_def E_def)
  have c52: "c * of_int (2 ^ 52) = 2 powr of_int E" unfolding c_def by (rule two_powr_52)
  have c53: "c * of_int (2 ^ 53) = 2 powr of_int (E + 1)" unfolding c_def by (rule two_powr_53)
  have "c * of_int (2 ^ 52) \<le> \<bar>x\<bar>"
    unfolding c52 E_def by (rule binade_lower [OF ax])
  then have "x \<le> c * of_int (- (2 ^ 52))" using assms by simp
  from rne_scaled_le [OF c this] have "round_double x \<le> - (c * of_int (2 ^ 52))"
    unfolding rd by simp
  then show "round_double x \<le> - (2 powr of_int \<lfloor>log 2 \<bar>x\<bar>\<rfloor>)"
    unfolding c52 E_def .
  have "\<bar>x\<bar> \<le> c * of_int (2 ^ 53)"
    unfolding c53 E_def using binade_upper [OF ax] by simp
  then have "c * of_int (- (2 ^ 53)) \<le> x" using assms by simp
  from rne_scaled_ge [OF c this] have "- (c * of_int (2 ^ 53)) \<le> round_double x"
    unfolding rd by simp
  then show "- (2 powr of_int (\<lfloor>log 2 \<bar>x\<bar>\<rfloor> + 1)) \<le> round_double x"
    unfolding c53 E_def .
qed


lemma round_double_same_binade:
  fixes x y :: real
  assumes "x \<noteq> 0" "y \<noteq> 0" "x \<le> y" "\<lfloor>log 2 \<bar>x\<bar>\<rfloor> = \<lfloor>log 2 \<bar>y\<bar>\<rfloor>"
  shows "round_double x \<le> round_double y"
proof -
  define c :: real where "c = 2 powr of_int (\<lfloor>log 2 \<bar>y\<bar>\<rfloor> - 52)"
  have c: "0 < c" by (simp add: c_def)
  have rx: "round_double x = of_int (rne (x / c)) * c"
    using assms(1,4) by (simp add: round_double_def Let_def c_def)
  have ry: "round_double y = of_int (rne (y / c)) * c"
    using assms(2) by (simp add: round_double_def Let_def c_def)
  have "x / c \<le> y / c" using assms(3) c by (simp add: divide_right_mono)
  then have "rne (x / c) \<le> rne (y / c)" by (rule rne_mono)
  then have "(of_int (rne (x / c)) :: real) \<le> of_int (rne (y / c))" by simp
  then show ?thesis unfolding rx ry using c by (intro mult_right_mono) simp_all
qed

lemma round_double_mono:
  fixes x y :: real
  assumes "x \<le> y"
  shows "round_double x \<le> round_double y"
proof -
  have zero: "round_double 0 = 0" by (simp add: round_double_def)
  have pos: "0 < round_double z" if "0 < z" for z :: real
    using round_double_pos(1) [OF that] powr_gt_zero [of 2 "of_int \<lfloor>log 2 z\<rfloor>"] by linarith
  have neg: "round_double z < 0" if "z < 0" for z :: real
    using round_double_neg(1) [OF that] powr_gt_zero [of 2 "of_int \<lfloor>log 2 \<bar>z\<bar>\<rfloor>"] by linarith
  consider "x < 0" "0 \<le> y" | "x = 0" | "0 < x" | "y < 0"
    using assms by linarith
  then show ?thesis
  proof cases
    case 1
    then show ?thesis using neg [of x] pos [of y] zero by (cases "y = 0") (auto simp add: less_eq_real_def)
  next
    case 2
    then show ?thesis using pos [of y] zero assms by (cases "y = 0") (auto simp add: less_eq_real_def)
  next
    case 3
    with assms have y: "0 < y" by simp
    have le: "\<lfloor>log 2 x\<rfloor> \<le> \<lfloor>log 2 y\<rfloor>"
      using 3 assms by (intro floor_mono) simp
    show ?thesis
    proof (cases "\<lfloor>log 2 x\<rfloor> = \<lfloor>log 2 y\<rfloor>")
      case True
      then show ?thesis using 3 y assms by (intro round_double_same_binade) simp_all
    next
      case False
      with le have "\<lfloor>log 2 x\<rfloor> + 1 \<le> \<lfloor>log 2 y\<rfloor>" by simp
      then have "(2 :: real) powr of_int (\<lfloor>log 2 x\<rfloor> + 1) \<le> 2 powr of_int \<lfloor>log 2 y\<rfloor>"
        by (intro powr_mono) simp_all
      with round_double_pos(2) [OF 3] round_double_pos(1) [OF y] show ?thesis by linarith
    qed
  next
    case 4
    with assms have x: "x < 0" by simp
    have le: "\<lfloor>log 2 \<bar>y\<bar>\<rfloor> \<le> \<lfloor>log 2 \<bar>x\<bar>\<rfloor>"
      using 4 assms by (intro floor_mono) simp
    show ?thesis
    proof (cases "\<lfloor>log 2 \<bar>x\<bar>\<rfloor> = \<lfloor>log 2 \<bar>y\<bar>\<rfloor>")
      case True
      then show ?thesis using 4 x assms by (intro round_double_same_binade) simp_all
    next
      case False
      with le have "\<lfloor>log 2 \<bar>y\<bar>\<rfloor> + 1 \<le> \<lfloor>log 2 \<bar>x\<bar>\<rfloor>" by simp
      then have "(2 :: real) powr of_int (\<lfloor>log 2 \<bar>y\<bar>\<rfloor> + 1) \<le> 2 powr of_int \<lfloor>log 2 \<bar>x\<bar>\<rfloor>"
        by (intro powr_mono) simp_all
      with round_double_neg(1) [OF x] round_double_neg(2) [OF 4] show ?thesis by linarith
    qed
  qed
qed

text \<open>Whole numbers up to 2^53 in magnitude are doubles.\<close>

lemma round_double_of_int:
  assumes "\<bar>k\<bar> \<le> 2 ^ 53"
  shows "round_double (of_int k) = of_int k"
proof (cases "k = 0")
  case True
  then show ?thesis by (simp add: round_double_def)
next
  case False
  define E where "E = \<lfloor>log 2 \<bar>of_int k :: real\<bar>\<rfloor>"
  have kpos: "0 < \<bar>of_int k :: real\<bar>" using False by simp
  have "(of_int \<bar>k\<bar> :: real) \<le> of_int (2 ^ 53)" using assms by (simp only: of_int_le_iff)
  then have kr: "\<bar>of_int k :: real\<bar> \<le> 2 ^ 53" by simp
  have "(2 :: real) powr 53 = 2 ^ 53" by (rule powr_numeral) simp
  then have "log 2 \<bar>of_int k :: real\<bar> \<le> 53"
    using kr kpos by (subst log_le_iff) simp_all
  then have E53: "E \<le> 53" unfolding E_def by (simp add: floor_le_iff)
  define c :: real where "c = 2 powr of_int (E - 52)"
  have rd: "round_double (of_int k) = of_int (rne (of_int k / c)) * c"
    using False by (simp add: round_double_def Let_def E_def c_def)
  have exact: "round_double (of_int k) = of_int k" if "of_int k / c = of_int m" for m
  proof -
    have "0 < c" by (simp add: c_def)
    then have "of_int k = of_int m * c" using that by (simp add: field_simps)
    then show ?thesis unfolding rd that rne_of_int by simp
  qed
  show ?thesis
  proof (cases "E \<le> 52")
    case True
    define n where "n = nat (52 - E)"
    have e: "of_int (E - 52) = - real n" using True by (simp add: n_def)
    have p: "c = 1 / 2 ^ n"
      unfolding c_def e by (simp add: powr_minus powr_realpow inverse_eq_divide)
    have "of_int k / c = of_int (k * 2 ^ n)" unfolding p by simp
    then show ?thesis by (rule exact)
  next
    case False
    with E53 have E: "E = 53" by simp
    have c2: "c = 2" unfolding c_def E by simp
    have "2 powr of_int E \<le> \<bar>of_int k :: real\<bar>" unfolding E_def by (rule binade_lower [OF kpos])
    then have "(of_int (2 ^ 53) :: real) \<le> of_int \<bar>k\<bar>" unfolding E by simp
    then have "2 ^ 53 \<le> \<bar>k\<bar>" by (simp only: of_int_le_iff)
    with assms have k: "\<bar>k\<bar> = 2 ^ 53" by simp
    then consider "k = 2 ^ 53" | "k = - (2 ^ 53)" by (auto simp add: abs_if split: if_splits)
    then show ?thesis
    proof cases
      case 1
      have "of_int k / c = of_int (2 ^ 52)" unfolding c2 1 by simp
      then show ?thesis by (rule exact)
    next
      case 2
      have "of_int k / c = of_int (- (2 ^ 52))" unfolding c2 2 by simp
      then show ?thesis by (rule exact)
    qed
  qed
qed


lemma round_double_Ints:
  assumes "x \<in> \<int>" "\<bar>x\<bar> \<le> 2 ^ 53"
  shows "round_double x = x"
proof -
  from assms(1) obtain k where k: "x = of_int k" by (rule Ints_cases)
  have "(of_int \<bar>k\<bar> :: real) \<le> of_int (2 ^ 53)" using assms(2) unfolding k by simp
  then have "\<bar>k\<bar> \<le> 2 ^ 53" by (simp only: of_int_le_iff)
  then show ?thesis unfolding k by (rule round_double_of_int)
qed

lemma round_double_numeral:
  "numeral n \<le> (2 :: real) ^ 53 \<Longrightarrow> round_double (numeral n) = numeral n"
  by (rule round_double_Ints) simp_all

lemma round_double_eval:
  fixes x :: real
  assumes "2 ^ k \<le> \<bar>x\<bar>" "\<bar>x\<bar> < 2 ^ Suc k" "k \<le> 52"
  shows "round_double x = of_int (rne (x * 2 ^ (52 - k))) / 2 ^ (52 - k)"
proof -
  have "(0 :: real) < 2 ^ k" by simp
  with assms(1) have "0 < \<bar>x\<bar>" by linarith
  then have x0: "x \<noteq> 0" by simp
  have lo: "(2 :: real) powr of_int (int k) \<le> \<bar>x\<bar>" using assms(1) by (simp add: powr_realpow)
  have "(2 :: real) powr of_int (int k + 1) = 2 ^ Suc k"
    using powr_realpow [of "2 :: real" "Suc k"] by (simp add: add.commute)
  then have hi: "\<bar>x\<bar> < 2 powr of_int (int k + 1)" using assms(2) by simp
  have E: "\<lfloor>log 2 \<bar>x\<bar>\<rfloor> = int k" using lo hi by (rule binade_unique)
  define c :: real where "c = 2 powr of_int (\<lfloor>log 2 \<bar>x\<bar>\<rfloor> - 52)"
  have rd: "round_double x = of_int (rne (x / c)) * c"
    using x0 by (simp add: round_double_def Let_def c_def)
  have "of_int (int k - 52) = - real (52 - k)" using assms(3) by simp
  then have "(2 :: real) powr of_int (int k - 52) = 2 powr (- real (52 - k))" by (simp only:)
  also have "\<dots> = inverse (2 powr real (52 - k))" by (rule powr_minus)
  also have "\<dots> = inverse (2 ^ (52 - k))" by (simp only: powr_realpow zero_less_numeral)
  finally have c: "c = inverse (2 ^ (52 - k))" unfolding c_def E .
  show ?thesis unfolding rd c by (simp add: divide_inverse)
qed

lemma round_double_58_3: "round_double (4102497785557811 / 70368744177664) = 4102497785557811 / 70368744177664"
  by (subst round_double_eval [where k = 5]) (simp_all add: rne_def)

lemma round_double_116_6: "round_double (4102497785557811 / 35184372088832) = 4102497785557811 / 35184372088832"
  by (subst round_double_eval [where k = 6]) (simp_all add: rne_def)

lemma round_double_174_9: "round_double (12307493356673433 / 70368744177664) = 1538436669584179 / 8796093022208"
  by (subst round_double_eval [where k = 7]) (simp_all add: rne_def)

lemma round_double_58_3_mean: "round_double (1538436669584179 / 26388279066624) = 8204995571115621 / 140737488355328"
  by (subst round_double_eval [where k = 5]) (simp_all add: rne_def)


lemma round_double_57_5: "round_double (115 / 2) = 115 / 2"
  by (subst round_double_eval [where k = 5]) (simp_all add: rne_def)

lemma round_double_167_3: "round_double (167 / 3) = 7834386851779925 / 140737488355328"
  by (subst round_double_eval [where k = 5]) (simp_all add: rne_def)

section \<open>Properties of the daily heart-rate index\<close>

lemma summarises_first:
  "summarises [rec]
     \<lparr>date = date rec, min_hr = heartRate rec, max_hr = heartRate rec, avg = heartRate rec,
      resting = (if inNightWindow (time rec) then Fin (heartRate rec) else Infinity),
      count = 1\<rparr>"
  by (simp add: summarises_def)

lemma summarises_next:
  assumes "summarises day s"
  shows "summarises (day @ [rec])
     (s\<lparr>min_hr := min (min_hr s) (heartRate rec),
        max_hr := max (max_hr s) (heartRate rec),
        avg := a,
        count := count s + 1,
        resting := (if inNightWindow (time rec) then min_resting (resting s) (heartRate rec)
                    else resting s)\<rparr>)"
proof -
  let ?H = "heartRate ` set day"
  let ?N = "filter (\<lambda>r. inNightWindow (time r)) day"
  from assms have ne: "day \<noteq> []" and fin: "finite ?H" "?H \<noteq> {}"
    by (simp_all add: summarises_def)
  have mn: "Min (heartRate ` set (day @ [rec])) = min (min_hr s) (heartRate rec)"
    using assms fin by (simp add: summarises_def min.commute)
  have mx: "Max (heartRate ` set (day @ [rec])) = max (max_hr s) (heartRate rec)"
    using assms fin by (simp add: summarises_def max.commute)
  define N where "N = filter (\<lambda>r. inNightWindow (time r)) day"
  have old: "resting s = (if N = [] then Infinity else Fin (Min (heartRate ` set N)))"
    using assms by (simp add: summarises_def N_def)
  have rs: "(if inNightWindow (time rec) then min_resting (resting s) (heartRate rec) else resting s)
      = (if filter (\<lambda>r. inNightWindow (time r)) (day @ [rec]) = [] then Infinity
         else Fin (Min (heartRate ` set (filter (\<lambda>r. inNightWindow (time r)) (day @ [rec])))))"
  proof (cases "inNightWindow (time rec)")
    case False
    then have "filter (\<lambda>r. inNightWindow (time r)) (day @ [rec]) = N" by (simp add: N_def)
    with False old show ?thesis by simp
  next
    case True
    then have app: "filter (\<lambda>r. inNightWindow (time r)) (day @ [rec]) = N @ [rec]"
      by (simp add: N_def)
    show ?thesis
    proof (cases "N = []")
      case True
      with \<open>inNightWindow (time rec)\<close> old show ?thesis unfolding app by simp
    next
      case False
      then have "finite (heartRate ` set N)" "heartRate ` set N \<noteq> {}" by simp_all
      with False \<open>inNightWindow (time rec)\<close> old show ?thesis
        unfolding app by (simp add: min.commute)
    qed
  qed
  from assms have cnt: "count s + 1 = length (day @ [rec])" by (simp add: summarises_def)
  show ?thesis
    unfolding summarises_def using mn mx rs cnt by simp
qed


lemma summary_step_other:
  "d \<noteq> date rec \<Longrightarrow> map_of (summary_step rec m) d = map_of m d"
  by (simp add: summary_step_def update_conv' split: option.split)

lemma summary_step_distinct:
  "distinct (map fst m) \<Longrightarrow> distinct (map fst (summary_step rec m))"
  by (simp add: summary_step_def distinct_update split: option.split)

lemma fold_summary_step_distinct: "distinct (map fst (fold summary_step records []))"
  by (induction records rule: rev_induct) (simp_all add: summary_step_distinct)

lemma summary_step_new:
  "map_of m (date rec) = None \<Longrightarrow>
   map_of (summary_step rec m) (date rec)
   = Some \<lparr>date = date rec, min_hr = heartRate rec, max_hr = heartRate rec, avg = heartRate rec,
        resting = (if inNightWindow (time rec) then Fin (heartRate rec) else Infinity),
        count = 1\<rparr>"
  by (simp add: summary_step_def update_conv')

lemma summary_step_existing:
  "map_of m (date rec) = Some s \<Longrightarrow>
   map_of (summary_step rec m) (date rec)
   = Some (s\<lparr>min_hr := min (min_hr s) (heartRate rec),
        max_hr := max (max_hr s) (heartRate rec),
        avg := round_double
                 (round_double (round_double (avg s * real (count s)) + heartRate rec)
                  / (real (count s) + 1)),
        count := count s + 1,
        resting := (if inNightWindow (time rec) then min_resting (resting s) (heartRate rec)
                    else resting s)\<rparr>)"
  by (simp add: summary_step_def update_conv')

lemma fold_summary_step_invariant:
  "(case map_of (fold summary_step records []) d of
      None \<Rightarrow> filter (\<lambda>r. date r = d) records = []
    | Some s \<Rightarrow> summarises (filter (\<lambda>r. date r = d) records) s)"
proof (induction records rule: rev_induct)
  case Nil
  then show ?case by simp
next
  case (snoc rec records)
  define m where "m = fold summary_step records []"
  have step: "fold summary_step (records @ [rec]) [] = summary_step rec m"
    by (simp add: m_def)
  note IH = snoc [folded m_def]
  show ?case
  proof (cases "d = date rec")
    case False
    then have "filter (\<lambda>r. date r = d) (records @ [rec]) = filter (\<lambda>r. date r = d) records"
      by auto
    moreover have "map_of (summary_step rec m) d = map_of m d"
      using False by (rule summary_step_other)
    ultimately show ?thesis using IH unfolding step by (simp only:)
  next
    case True
    have app: "filter (\<lambda>r. date r = d) (records @ [rec]) = filter (\<lambda>r. date r = d) records @ [rec]"
      using True by simp
    show ?thesis
    proof (cases "map_of m (date rec)")
      case None
      with IH True have "filter (\<lambda>r. date r = d) records = []" by simp
      with summary_step_new [OF None] summarises_first [of rec] True show ?thesis
        unfolding step app by simp
    next
      case (Some existing)
      with IH True have "summarises (filter (\<lambda>r. date r = d) records) existing" by simp
      from summarises_next [OF this] summary_step_existing [OF Some] True show ?thesis
        unfolding step app by simp
    qed
  qed
qed

lemma buildDailyHRSummary_entry:
  assumes "(d, s') \<in> set (buildDailyHRSummary records)"
  obtains s where "summarises (filter (\<lambda>r. date r = d) records) s" "s' = resting_fallback s"
proof -
  from assms obtain s where mem: "(d, s) \<in> set (fold summary_step records [])"
    and s': "s' = resting_fallback s"
    by (auto simp add: buildDailyHRSummary_def)
  from mem fold_summary_step_distinct have "map_of (fold summary_step records []) d = Some s"
    by simp
  with fold_summary_step_invariant [where records = records and d = d]
  have "summarises (filter (\<lambda>r. date r = d) records) s" by simp
  with s' that show thesis by blast
qed

text \<open>
  Claim C8. For every list of records and every date of the map that
  \<open>buildDailyHRSummary\<close> returns, the summary's minimum is the lowest heart rate of that
  date's records; if none of them has a time from 02:00 up to but excluding 05:00, the
  resting heart rate is that minimum, and otherwise it is the lowest heart rate among
  the records in that window.
\<close>

theorem buildDailyHRSummary_resting:
  assumes "(d, s) \<in> set (buildDailyHRSummary records)"
  shows "min_hr s = Min (heartRate ` set (filter (\<lambda>r. date r = d) records))
       \<and> (if filter (\<lambda>r. inNightWindow (time r)) (filter (\<lambda>r. date r = d) records) = []
          then resting s = Fin (min_hr s)
          else resting s = Fin (Min (heartRate ` set
                 (filter (\<lambda>r. inNightWindow (time r)) (filter (\<lambda>r. date r = d) records)))))"
proof -
  from assms obtain s0 where inv: "summarises (filter (\<lambda>r. date r = d) records) s0"
    and s: "s = resting_fallback s0"
    by (rule buildDailyHRSummary_entry)
  show ?thesis
    using inv unfolding s summarises_def resting_fallback_def by simp
qed

theorem buildDailyHRSummary_resting_witness:
  "(''2025-01-02'', \<lparr>date = ''2025-01-02'', min_hr = 70, max_hr = 80, avg = 75,
                      resting = Fin 70, count = 2\<rparr>)
     \<in> set (buildDailyHRSummary
        [\<lparr>date = ''2025-01-01'', time = ''01:30'', heartRate = 60\<rparr>,
         \<lparr>date = ''2025-01-02'', time = ''12:00'', heartRate = 80\<rparr>,
         \<lparr>date = ''2025-01-01'', time = ''02:30'', heartRate = 55\<rparr>,
         \<lparr>date = ''2025-01-02'', time = ''13:00'', heartRate = 70\<rparr>,
         \<lparr>date = ''2025-01-01'', time = ''03:10'', heartRate = 52\<rparr>])
   \<and> filter (\<lambda>r. inNightWindow (time r)) (filter (\<lambda>r. date r = ''2025-01-02'')
        [\<lparr>date = ''2025-01-01'', time = ''01:30'', heartRate = 60\<rparr>,
         \<lparr>date = ''2025-01-02'', time = ''12:00'', heartRate = 80\<rparr>,
         \<lparr>date = ''2025-01-01'', time = ''02:30'', heartRate = 55\<rparr>,
         \<lparr>date = ''2025-01-02'', time = ''13:00'', heartRate = 70\<rparr>,
         \<lparr>date = ''2025-01-01'', time = ''03:10'', heartRate = 52\<rparr>]) = []
   \<and> resting \<lparr>date = ''2025-01-02'', min_hr = 70, max_hr = 80, avg = 75,
                resting = Fin 70, count = 2\<rparr>
     = Fin (min_hr \<lparr>date = ''2025-01-02'', min_hr = 70, max_hr = 80, avg = 75,
                resting = Fin 70, count = 2\<rparr>)"
proof -
  let ?recs = "[\<lparr>date = ''2025-01-01'', time = ''01:30'', heartRate = 60\<rparr>,
         \<lparr>date = ''2025-01-02'', time = ''12:00'', heartRate = 80\<rparr>,
         \<lparr>date = ''2025-01-01'', time = ''02:30'', heartRate = 55\<rparr>,
         \<lparr>date = ''2025-01-02'', time = ''13:00'', heartRate = 70\<rparr>,
         \<lparr>date = ''2025-01-01'', time = ''03:10'', heartRate = 52\<rparr>]"
  let ?s = "\<lparr>date = ''2025-01-02'', min_hr = 70, max_hr = 80, avg = 75,
                resting = Fin 70, count = 2\<rparr>"
  have mem: "(''2025-01-02'', ?s) \<in> set (buildDailyHRSummary ?recs)"
    by (simp add: buildDailyHRSummary_def summary_step_def resting_fallback_def
        inNightWindow_def str_ge_def round_double_numeral)
  have none: "filter (\<lambda>r. inNightWindow (time r)) (filter (\<lambda>r. date r = ''2025-01-02'') ?recs) = []"
    by (simp add: inNightWindow_def str_ge_def)
  from buildDailyHRSummary_resting [OF mem] none mem show ?thesis by simp
qed

lemma running_mean_lower:
  fixes lo a h :: real
  assumes int: "lo \<in> \<int>" "h \<in> \<int>"
    and small: "\<bar>lo\<bar> * (real n + 1) \<le> 2 ^ 53" "\<bar>h\<bar> * (real n + 1) \<le> 2 ^ 53"
    and le: "lo \<le> a"
  shows "min lo h \<le> round_double (round_double (round_double (a * real n) + h) / (real n + 1))"
proof -
  define m where "m = min lo h"
  have m_int: "m \<in> \<int>" using int by (simp add: m_def min_def)
  have m_small: "\<bar>m\<bar> * (real n + 1) \<le> 2 ^ 53" using small by (simp add: m_def min_def)
  have m_lo: "m \<le> lo" and m_h: "m \<le> h" by (simp_all add: m_def)
  have n0: "0 \<le> real n" and n1: "0 < real n + 1" by simp_all
  have "\<bar>lo * real n\<bar> = \<bar>lo\<bar> * real n" by (simp add: abs_mult)
  also have "\<dots> \<le> \<bar>lo\<bar> * (real n + 1)" by (intro mult_left_mono) simp_all
  finally have "\<bar>lo * real n\<bar> \<le> 2 ^ 53" using small(1) by linarith
  then have fix1: "round_double (lo * real n) = lo * real n"
    using int(1) by (intro round_double_Ints) simp_all
  have "lo * real n \<le> a * real n" using le by (intro mult_right_mono) simp_all
  then have p: "lo * real n \<le> round_double (a * real n)"
    using round_double_mono [of "lo * real n" "a * real n"] fix1 by simp
  have "\<bar>m * (real n + 1)\<bar> = \<bar>m\<bar> * (real n + 1)" by (simp add: abs_mult)
  then have "\<bar>m * (real n + 1)\<bar> \<le> 2 ^ 53" using m_small by simp
  moreover have "m * (real n + 1) \<in> \<int>" using m_int by (intro Ints_mult Ints_add) simp_all
  ultimately have fix2: "round_double (m * (real n + 1)) = m * (real n + 1)"
    by (intro round_double_Ints)
  have "m * real n \<le> lo * real n" using m_lo by (intro mult_right_mono) simp_all
  then have "m * (real n + 1) \<le> round_double (a * real n) + h"
    using p m_h by (simp add: algebra_simps)
  then have s: "m * (real n + 1) \<le> round_double (round_double (a * real n) + h)"
    using round_double_mono [of "m * (real n + 1)" "round_double (a * real n) + h"] fix2 by simp
  have "\<bar>m\<bar> * 1 \<le> \<bar>m\<bar> * (real n + 1)" by (intro mult_left_mono) simp_all
  then have "\<bar>m\<bar> \<le> 2 ^ 53" using m_small by simp
  then have fix3: "round_double m = m" using m_int by (intro round_double_Ints)
  have "m \<le> round_double (round_double (a * real n) + h) / (real n + 1)"
    using s n1 by (simp add: pos_le_divide_eq)
  then show ?thesis
    using round_double_mono [of m "round_double (round_double (a * real n) + h) / (real n + 1)"] fix3
    by (simp add: m_def)
qed

lemma running_mean_upper:
  fixes hi a h :: real
  assumes int: "hi \<in> \<int>" "h \<in> \<int>"
    and small: "\<bar>hi\<bar> * (real n + 1) \<le> 2 ^ 53" "\<bar>h\<bar> * (real n + 1) \<le> 2 ^ 53"
    and le: "a \<le> hi"
  shows "round_double (round_double (round_double (a * real n) + h) / (real n + 1)) \<le> max hi h"
proof -
  define m where "m = max hi h"
  have m_int: "m \<in> \<int>" using int by (simp add: m_def max_def)
  have m_small: "\<bar>m\<bar> * (real n + 1) \<le> 2 ^ 53" using small by (simp add: m_def max_def)
  have m_hi: "hi \<le> m" and m_h: "h \<le> m" by (simp_all add: m_def)
  have n0: "0 \<le> real n" and n1: "0 < real n + 1" by simp_all
  have "\<bar>hi * real n\<bar> = \<bar>hi\<bar> * real n" by (simp add: abs_mult)
  also have "\<dots> \<le> \<bar>hi\<bar> * (real n + 1)" by (intro mult_left_mono) simp_all
  finally have "\<bar>hi * real n\<bar> \<le> 2 ^ 53" using small(1) by linarith
  then have fix1: "round_double (hi * real n) = hi * real n"
    using int(1) by (intro round_double_Ints) simp_all
  have "a * real n \<le> hi * real n" using le by (intro mult_right_mono) simp_all
  then have p: "round_double (a * real n) \<le> hi * real n"
    using round_double_mono [of "a * real n" "hi * real n"] fix1 by simp
  have "\<bar>m * (real n + 1)\<bar> = \<bar>m\<bar> * (real n + 1)" by (simp add: abs_mult)
  then have "\<bar>m * (real n + 1)\<bar> \<le> 2 ^ 53" using m_small by simp
  moreover have "m * (real n + 1) \<in> \<int>" using m_int by (intro Ints_mult Ints_add) simp_all
  ultimately have fix2: "round_double (m * (real n + 1)) = m * (real n + 1)"
    by (intro round_double_Ints)
  have "hi * real n \<le> m * real n" using m_hi by (intro mult_right_mono) simp_all
  then have "round_double (a * real n) + h \<le> m * (real n + 1)"
    using p m_h by (simp add: algebra_simps)
  then have s: "round_double (round_double (a * real n) + h) \<le> m * (real n + 1)"
    using round_double_mono [of "round_double (a * real n) + h" "m * (real n + 1)"] fix2 by simp
  have "\<bar>m\<bar> * 1 \<le> \<bar>m\<bar> * (real n + 1)" by (intro mult_left_mono) simp_all
  then have "\<bar>m\<bar> \<le> 2 ^ 53" using m_small by simp
  then have fix3: "round_double m = m" using m_int by (intro round_double_Ints)
  have "round_double (round_double (a * real n) + h) / (real n + 1) \<le> m"
    using s n1 by (simp add: pos_divide_le_eq)
  then show ?thesis
    using round_double_mono [of "round_double (round_double (a * real n) + h) / (real n + 1)" m] fix3
    by (simp add: m_def)
qed


lemma fold_summary_step_mean:
  assumes "map_of (fold summary_step records []) d = Some s"
    and "\<forall>r \<in> set (filter (\<lambda>r. date r = d) records).
           heartRate r \<in> \<int>
           \<and> \<bar>heartRate r\<bar> * real (length (filter (\<lambda>r. date r = d) records)) \<le> 2 ^ 53"
  shows "min_hr s \<le> avg s \<and> avg s \<le> max_hr s"
  using assms
proof (induction records arbitrary: s rule: rev_induct)
  case Nil
  then show ?case by simp
next
  case (snoc rec records)
  define m where "m = fold summary_step records []"
  define day where "day = filter (\<lambda>r. date r = d) records"
  have step: "fold summary_step (records @ [rec]) [] = summary_step rec m"
    by (simp add: m_def)
  note IH = snoc.IH [folded m_def day_def]
  from snoc.prems(1) have res: "map_of (summary_step rec m) d = Some s" unfolding step .
  show ?case
  proof (cases "d = date rec")
    case False
    then have eq: "filter (\<lambda>r. date r = d) (records @ [rec]) = day"
      by (auto simp add: day_def)
    have "\<forall>r \<in> set day. heartRate r \<in> \<int>
        \<and> \<bar>heartRate r\<bar> * real (length day) \<le> 2 ^ 53"
      using snoc.prems(2) unfolding eq .
    moreover have "map_of m d = Some s" using res summary_step_other [OF False] by simp
    ultimately show ?thesis by (rule IH [rotated])
  next
    case True
    then have eq: "filter (\<lambda>r. date r = d) (records @ [rec]) = day @ [rec]"
      by (simp add: day_def)
    from snoc.prems(2) [unfolded eq] have whole: "\<And>r. r \<in> set (day @ [rec]) \<Longrightarrow> heartRate r \<in> \<int>"
      and small: "\<And>r. r \<in> set (day @ [rec]) \<Longrightarrow> \<bar>heartRate r\<bar> * (real (length day) + 1) \<le> 2 ^ 53"
      by (auto simp add: add.commute)
    show ?thesis
    proof (cases "map_of m (date rec)")
      case None
      from summary_step_new [OF None] res True show ?thesis by auto
    next
      case (Some existing)
      have inv: "summarises day existing"
        using fold_summary_step_invariant [where records = records and d = d] Some True
        by (simp add: m_def day_def)
      then have ne: "day \<noteq> []" and cnt: "count existing = length day"
        and mn: "min_hr existing = Min (heartRate ` set day)"
        and mx: "max_hr existing = Max (heartRate ` set day)"
        by (simp_all add: summarises_def)
      have "\<forall>r \<in> set day. heartRate r \<in> \<int> \<and> \<bar>heartRate r\<bar> * real (length day) \<le> 2 ^ 53"
      proof
        fix r assume r: "r \<in> set day"
        have "\<bar>heartRate r\<bar> * real (length day) \<le> \<bar>heartRate r\<bar> * (real (length day) + 1)"
          by (intro mult_left_mono) simp_all
        with small [of r] whole [of r] r
        show "heartRate r \<in> \<int> \<and> \<bar>heartRate r\<bar> * real (length day) \<le> 2 ^ 53" by simp
      qed
      with Some True have old: "min_hr existing \<le> avg existing" "avg existing \<le> max_hr existing"
        using IH [of existing] by simp_all
      from ne have "Min (heartRate ` set day) \<in> heartRate ` set day"
        by (intro Min_in) simp_all
      then obtain r1 where r1: "r1 \<in> set day" "min_hr existing = heartRate r1"
        unfolding mn by auto
      from ne have "Max (heartRate ` set day) \<in> heartRate ` set day"
        by (intro Max_in) simp_all
      then obtain r2 where r2: "r2 \<in> set day" "max_hr existing = heartRate r2"
        unfolding mx by auto
      have lo: "min_hr existing \<in> \<int>" "\<bar>min_hr existing\<bar> * (real (count existing) + 1) \<le> 2 ^ 53"
        using whole [of r1] small [of r1] r1 by (simp_all add: cnt)
      have hi: "max_hr existing \<in> \<int>" "\<bar>max_hr existing\<bar> * (real (count existing) + 1) \<le> 2 ^ 53"
        using whole [of r2] small [of r2] r2 by (simp_all add: cnt)
      have h: "heartRate rec \<in> \<int>" "\<bar>heartRate rec\<bar> * (real (count existing) + 1) \<le> 2 ^ 53"
        using whole [of rec] small [of rec] by (simp_all add: cnt)
      from summary_step_existing [OF Some] res True
      have s: "min_hr s = min (min_hr existing) (heartRate rec)"
          "max_hr s = max (max_hr existing) (heartRate rec)"
          "avg s = round_double
                 (round_double (round_double (avg existing * real (count existing)) + heartRate rec)
                  / (real (count existing) + 1))"
        by auto
      show ?thesis
        unfolding s
        using running_mean_lower [OF lo(1) h(1) lo(2) h(2) old(1)]
          running_mean_upper [OF hi(1) h(1) hi(2) h(2) old(2)]
        by simp
    qed
  qed
qed

lemma buildDailyHRSummary_two_days:
  "buildDailyHRSummary
    [\<lparr>date = ''2025-01-01'', time = ''01:30'', heartRate = 60\<rparr>,
     \<lparr>date = ''2025-01-02'', time = ''12:00'', heartRate = 80\<rparr>,
     \<lparr>date = ''2025-01-01'', time = ''02:30'', heartRate = 55\<rparr>,
     \<lparr>date = ''2025-01-02'', time = ''13:00'', heartRate = 70\<rparr>,
     \<lparr>date = ''2025-01-01'', time = ''03:10'', heartRate = 52\<rparr>]
   = [(''2025-01-01'', \<lparr>date = ''2025-01-01'', min_hr = 52, max_hr = 60,
                         avg = 7834386851779925 / 140737488355328,
                         resting = Fin 52, count = 3\<rparr>),
      (''2025-01-02'', \<lparr>date = ''2025-01-02'', min_hr = 70, max_hr = 80, avg = 75,
                         resting = Fin 70, count = 2\<rparr>)]"
  by (simp add: buildDailyHRSummary_def summary_step_def resting_fallback_def
      inNightWindow_def str_ge_def round_double_numeral round_double_57_5 round_double_167_3)

text \<open>
  Claim C9, as the code has it. For every list of records, every summary that
  \<open>buildDailyHRSummary\<close> returns has its minimum at most its maximum and a resting heart
  rate that is a number between the two. Its running mean lies between the minimum and
  the maximum whenever the heart rates of that date are whole numbers, each at most 2^53
  in magnitude when multiplied by the number of that date's records.
\<close>

theorem buildDailyHRSummary_bounds:
  assumes "(d, s) \<in> set (buildDailyHRSummary records)"
  shows "min_hr s \<le> max_hr s
       \<and> (\<exists>r. resting s = Fin r \<and> min_hr s \<le> r \<and> r \<le> max_hr s)
       \<and> ((\<forall>r \<in> set (filter (\<lambda>r. date r = d) records).
              heartRate r \<in> \<int>
              \<and> \<bar>heartRate r\<bar> * real (length (filter (\<lambda>r. date r = d) records)) \<le> 2 ^ 53)
           \<longrightarrow> min_hr s \<le> avg s \<and> avg s \<le> max_hr s)"
proof -
  from assms obtain s0 where mem: "(d, s0) \<in> set (fold summary_step records [])"
    and s: "s = resting_fallback s0"
    by (auto simp add: buildDailyHRSummary_def)
  from mem fold_summary_step_distinct have look: "map_of (fold summary_step records []) d = Some s0"
    by simp
  with fold_summary_step_invariant [where records = records and d = d]
  have inv: "summarises (filter (\<lambda>r. date r = d) records) s0" by simp
  define day where "day = filter (\<lambda>r. date r = d) records"
  define N where "N = filter (\<lambda>r. inNightWindow (time r)) day"
  from inv have ne: "day \<noteq> []"
    and mn: "min_hr s0 = Min (heartRate ` set day)"
    and mx: "max_hr s0 = Max (heartRate ` set day)"
    and rs: "resting s0 = (if N = [] then Infinity else Fin (Min (heartRate ` set N)))"
    by (simp_all add: summarises_def day_def N_def)
  have same: "min_hr s = min_hr s0" "max_hr s = max_hr s0" "avg s = avg s0"
    by (simp_all add: s resting_fallback_def)
  have minmax: "min_hr s0 \<le> max_hr s0"
  proof -
    from ne have "Min (heartRate ` set day) \<in> heartRate ` set day" by (intro Min_in) simp_all
    then show ?thesis unfolding mn mx by (intro Max_ge) simp_all
  qed
  have rest: "\<exists>r. resting s = Fin r \<and> min_hr s0 \<le> r \<and> r \<le> max_hr s0"
  proof (cases "N = []")
    case True
    with rs minmax show ?thesis by (simp add: s resting_fallback_def)
  next
    case False
    then have ne: "heartRate ` set N \<noteq> {}" and fin: "finite (heartRate ` set N)" by simp_all
    have sub: "heartRate ` set N \<subseteq> heartRate ` set day" by (auto simp add: N_def)
    have "Min (heartRate ` set day) \<le> Min (heartRate ` set N)"
      using sub ne by (intro Min_antimono) simp_all
    moreover have "Min (heartRate ` set N) \<le> Max (heartRate ` set day)"
    proof -
      have "Min (heartRate ` set N) \<in> heartRate ` set N" by (rule Min_in [OF fin ne])
      with sub have "Min (heartRate ` set N) \<in> heartRate ` set day" by blast
      then show ?thesis by (intro Max_ge) simp_all
    qed
    ultimately show ?thesis using False rs mn mx by (simp add: s resting_fallback_def)
  qed
  have mean: "min_hr s0 \<le> avg s0 \<and> avg s0 \<le> max_hr s0"
    if "\<forall>r \<in> set (filter (\<lambda>r. date r = d) records).
              heartRate r \<in> \<int>
              \<and> \<bar>heartRate r\<bar> * real (length (filter (\<lambda>r. date r = d) records)) \<le> 2 ^ 53"
    using look that by (rule fold_summary_step_mean)
  show ?thesis unfolding same using minmax rest mean by blast
qed

theorem buildDailyHRSummary_bounds_witness:
  "(''2025-01-01'', \<lparr>date = ''2025-01-01'', min_hr = 52, max_hr = 60,
                      avg = 7834386851779925 / 140737488355328,
                      resting = Fin 52, count = 3\<rparr>)
     \<in> set (buildDailyHRSummary
        [\<lparr>date = ''2025-01-01'', time = ''01:30'', heartRate = 60\<rparr>,
         \<lparr>date = ''2025-01-02'', time = ''12:00'', heartRate = 80\<rparr>,
         \<lparr>date = ''2025-01-01'', time = ''02:30'', heartRate = 55\<rparr>,
         \<lparr>date = ''2025-01-02'', time = ''13:00'', heartRate = 70\<rparr>,
         \<lparr>date = ''2025-01-01'', time = ''03:10'', heartRate = 52\<rparr>])
   \<and> list_all (\<lambda>r. heartRate r \<in> \<int> \<and> \<bar>heartRate r\<bar> * 3 \<le> 2 ^ 53)
        (filter (\<lambda>r. date r = ''2025-01-01'')
          [\<lparr>date = ''2025-01-01'', time = ''01:30'', heartRate = 60\<rparr>,
           \<lparr>date = ''2025-01-02'', time = ''12:00'', heartRate = 80\<rparr>,
           \<lparr>date = ''2025-01-01'', time = ''02:30'', heartRate = 55\<rparr>,
           \<lparr>date = ''2025-01-02'', time = ''13:00'', heartRate = 70\<rparr>,
           \<lparr>date = ''2025-01-01'', time = ''03:10'', heartRate = 52\<rparr>])
   \<and> min_hr \<lparr>date = ''2025-01-01'', min_hr = 52, max_hr = 60,
               avg = 7834386851779925 / 140737488355328, resting = Fin 52, count = 3\<rparr>
       \<le> avg \<lparr>date = ''2025-01-01'', min_hr = 52, max_hr = 60,
               avg = 7834386851779925 / 140737488355328, resting = Fin 52, count = 3\<rparr>
   \<and> avg \<lparr>date = ''2025-01-01'', min_hr = 52, max_hr = 60,
               avg = 7834386851779925 / 140737488355328, resting = Fin 52, count = 3\<rparr>
       \<le> max_hr \<lparr>date = ''2025-01-01'', min_hr = 52, max_hr = 60,
               avg = 7834386851779925 / 140737488355328, resting = Fin 52, count = 3\<rparr>
   \<and> resting \<lparr>date = ''2025-01-01'', min_hr = 52, max_hr = 60,
               avg = 7834386851779925 / 140737488355328, resting = Fin 52, count = 3\<rparr>
       = Fin 52"
proof -
  let ?recs = "[\<lparr>date = ''2025-01-01'', time = ''01:30'', heartRate = 60\<rparr>,
         \<lparr>date = ''2025-01-02'', time = ''12:00'', heartRate = 80\<rparr>,
         \<lparr>date = ''2025-01-01'', time = ''02:30'', heartRate = 55\<rparr>,
         \<lparr>date = ''2025-01-02'', time = ''13:00'', heartRate = 70\<rparr>,
         \<lparr>date = ''2025-01-01'', time = ''03:10'', heartRate = 52\<rparr>]"
  let ?s = "\<lparr>date = ''2025-01-01'', min_hr = 52, max_hr = 60,
              avg = 7834386851779925 / 140737488355328, resting = Fin 52, count = 3\<rparr>"
  have mem: "(''2025-01-01'', ?s) \<in> set (buildDailyHRSummary ?recs)"
    unfolding buildDailyHRSummary_two_days by simp
  have whole: "\<forall>r \<in> set (filter (\<lambda>r. date r = ''2025-01-01'') ?recs).
      heartRate r \<in> \<int>
      \<and> \<bar>heartRate r\<bar> * real (length (filter (\<lambda>r. date r = ''2025-01-01'') ?recs)) \<le> 2 ^ 53"
    by simp
  from buildDailyHRSummary_bounds [OF mem] whole mem show ?thesis by simp
qed

text \<open>
  Counterexample to claim C9 as stated (the mean is never below the minimum): three
  readings of 58.3, the double \<open>4102497785557811 / 2^46\<close>, on one date. The sum of the
  doubled mean and the third reading rounds down to \<open>1538436669584179 / 2^43\<close>, and a
  third of that rounds to \<open>8204995571115621 / 2^47\<close>, one unit in the last place below
  the minimum.
\<close>

theorem buildDailyHRSummary_mean_below_min:
  "(''2025-01-01'', \<lparr>date = ''2025-01-01'',
        min_hr = 4102497785557811 / 70368744177664,
        max_hr = 4102497785557811 / 70368744177664,
        avg = 8204995571115621 / 140737488355328,
        resting = Fin (4102497785557811 / 70368744177664), count = 3\<rparr>)
     \<in> set (buildDailyHRSummary
        [\<lparr>date = ''2025-01-01'', time = ''10:00'', heartRate = 4102497785557811 / 70368744177664\<rparr>,
         \<lparr>date = ''2025-01-01'', time = ''10:01'', heartRate = 4102497785557811 / 70368744177664\<rparr>,
         \<lparr>date = ''2025-01-01'', time = ''10:02'', heartRate = 4102497785557811 / 70368744177664\<rparr>])
   \<and> avg \<lparr>date = ''2025-01-01'',
        min_hr = 4102497785557811 / 70368744177664,
        max_hr = 4102497785557811 / 70368744177664,
        avg = 8204995571115621 / 140737488355328,
        resting = Fin (4102497785557811 / 70368744177664), count = 3\<rparr>
     < min_hr \<lparr>date = ''2025-01-01'',
        min_hr = 4102497785557811 / 70368744177664,
        max_hr = 4102497785557811 / 70368744177664,
        avg = 8204995571115621 / 140737488355328,
        resting = Fin (4102497785557811 / 70368744177664), count = 3\<rparr>"
  by (simp add: buildDailyHRSummary_def summary_step_def resting_fallback_def
      inNightWindow_def str_ge_def round_double_58_3 round_double_116_6
      round_double_174_9 round_double_58_3_mean)

end
